theory Spec2Isabelle
  imports Complex_Main "HOL-Library.Log_Nat"
begin

section \<open>Python numbers\<close>

text \<open>
  The fields of an \<open>EarthworkCrossSection\<close> are annotated \<open>float\<close>, but Python does not
  enforce the annotation and the demonstration in \<open>main\<close> passes \<open>int\<close>s. The two kinds of
  number behave differently in the code (the format code \<open>d\<close> accepts an \<open>int\<close> and raises
  on a \<open>float\<close>), so a number is a tagged value.

  A \<open>float\<close> is a binary64 number, modelled by the rational it denotes. Every float
  operation returns the exact result rounded to 53 significant bits, ties to even, as
  IEEE 754 prescribes. The exponent range is not bounded in the model: overflow to
  infinity, subnormal numbers, NaN and the sign of zero are outside it.
\<close>

datatype pynum = PInt int | PFloat rat

datatype py_error = ValueError | ZeroDivisionError

text \<open>Rounding to the nearest integer, ties to even.\<close>

definition round_half_even :: "rat \<Rightarrow> int" where
  "round_half_even x =
     (let n = \<lfloor>x\<rfloor>; d = x - of_int n
      in if d < 1 / 2 then n
         else if 1 / 2 < d then n + 1
         else if even n then n else n + 1)"

text \<open>\<open>ilog2 x\<close> is \<open>\<lfloor>log\<^sub>2 x\<rfloor>\<close> for a positive rational \<open>x\<close>.\<close>

definition ilog2 :: "rat \<Rightarrow> int" where
  "ilog2 x =
     (let (a, b) = quotient_of x; k = bitlen a - bitlen b
      in if 2 powi k \<le> x then k else k - 1)"

text \<open>
  \<open>fl x\<close> is the binary64 number nearest to \<open>x\<close>: \<open>x\<close> is scaled so that its integer
  part has 53 bits, rounded to an integer and scaled back.
\<close>

definition fl :: "rat \<Rightarrow> rat" where
  "fl x =
     (if x = 0 then 0
      else let e = ilog2 \<bar>x\<bar> - 52
           in of_int (round_half_even (x / 2 powi e)) * 2 powi e)"

text \<open>A float literal of the source text is the binary64 number nearest to its decimal value.\<close>

definition float_lit :: "rat \<Rightarrow> pynum" where
  "float_lit x = PFloat (fl x)"

text \<open>The number a value denotes, and its conversion to \<open>float\<close> in mixed arithmetic.\<close>

fun num_val :: "pynum \<Rightarrow> rat" where
  "num_val (PInt n) = of_int n"
| "num_val (PFloat r) = r"

fun to_float :: "pynum \<Rightarrow> rat" where
  "to_float (PInt n) = fl (of_int n)"
| "to_float (PFloat r) = r"

text \<open>
  \<open>+\<close>, \<open>-\<close> and \<open>*\<close>: exact on two \<open>int\<close>s, otherwise both operands are converted to
  \<open>float\<close> and the result is rounded.
\<close>

fun py_add :: "pynum \<Rightarrow> pynum \<Rightarrow> pynum" where
  "py_add (PInt m) (PInt n) = PInt (m + n)"
| "py_add a b = PFloat (fl (to_float a + to_float b))"

fun py_sub :: "pynum \<Rightarrow> pynum \<Rightarrow> pynum" where
  "py_sub (PInt m) (PInt n) = PInt (m - n)"
| "py_sub a b = PFloat (fl (to_float a - to_float b))"

fun py_mul :: "pynum \<Rightarrow> pynum \<Rightarrow> pynum" where
  "py_mul (PInt m) (PInt n) = PInt (m * n)"
| "py_mul a b = PFloat (fl (to_float a * to_float b))"

text \<open>
  \<open>/\<close> is true division: the result is always a \<open>float\<close>, a zero divisor raises. The
  quotient of two \<open>int\<close>s is the exact quotient, rounded once.
\<close>

fun py_truediv :: "pynum \<Rightarrow> pynum \<Rightarrow> py_error + pynum" where
  "py_truediv (PInt m) (PInt n) =
     (if n = 0 then Inl ZeroDivisionError
      else Inr (PFloat (fl (of_int m / of_int n))))"
| "py_truediv a b =
     (if to_float b = 0 then Inl ZeroDivisionError
      else Inr (PFloat (fl (to_float a / to_float b))))"

fun py_abs :: "pynum \<Rightarrow> pynum" where
  "py_abs (PInt n) = PInt \<bar>n\<bar>"
| "py_abs (PFloat r) = PFloat \<bar>r\<bar>"

text \<open>\<open>math.floor\<close> returns an \<open>int\<close>.\<close>

fun floor_py :: "pynum \<Rightarrow> int" where
  "floor_py (PInt n) = n"
| "floor_py (PFloat r) = \<lfloor>r\<rfloor>"

section \<open>String formatting\<close>

definition digit_char :: "int \<Rightarrow> char" where
  "digit_char d = char_of (48 + d)"

text \<open>The decimal digits of a non-negative \<open>int\<close>.\<close>

function str_digits :: "int \<Rightarrow> string" where
  "str_digits n =
     (if n < 10 then [digit_char n] else str_digits (n div 10) @ [digit_char (n mod 10)])"
  by pat_completeness auto
termination
  by (relation "measure nat") auto

declare str_digits.simps [simp del]

text \<open>\<open>str\<close> of an \<open>int\<close>, which is also what an f-string field without a format gives.\<close>

definition str_int :: "int \<Rightarrow> string" where
  "str_int i = (if i < 0 then ''-'' @ str_digits (- i) else str_digits i)"

text \<open>
  Zero padding (the flag \<open>0\<close> before the width) puts the zeros between the sign and the
  digits, and the sign counts in the width.
\<close>

definition zero_pad :: "nat \<Rightarrow> bool \<Rightarrow> string \<Rightarrow> string" where
  "zero_pad w neg ds =
     (let sgn = (if neg then ''-'' else '''')
      in sgn @ replicate (w - length sgn - length ds) CHR ''0'' @ ds)"

text \<open>The format \<open>02d\<close>: defined on an \<open>int\<close>, a \<open>ValueError\<close> on a \<open>float\<close>.\<close>

fun format_02d :: "pynum \<Rightarrow> py_error + string" where
  "format_02d (PInt i) = Inr (zero_pad 2 (i < 0) (str_digits \<bar>i\<bar>))"
| "format_02d (PFloat r) = Inl ValueError"


section \<open>The class \<open>EarthworkCrossSection\<close>\<close>

text \<open>
  The dataclass has the fields \<open>position\<close>, \<open>cut\<close>, \<open>fill\<close> and \<open>_station\<close>; the last one
  is \<open>None\<close> until it is given or generated, and is called \<open>station\<close> here.
\<close>

record EarthworkCrossSection =
  position :: pynum
  cut :: pynum
  fill :: pynum
  station :: "string option"

text \<open>\<open>__post_init__\<close>: a station that was set manually is kept, otherwise it is generated.\<close>

definition post_init :: "EarthworkCrossSection \<Rightarrow> py_error + EarthworkCrossSection" where
  "post_init self =
     (case station self of
        Some s \<Rightarrow> Inr self
      | None \<Rightarrow>
          (case py_truediv (position self) (PInt 100) of
             Inl e \<Rightarrow> Inl e
           | Inr q \<Rightarrow>
               (let station_num = floor_py q;
                    station_addon = py_sub (position self) (py_mul (PInt station_num) (PInt 100))
                in case format_02d station_addon of
                     Inl e \<Rightarrow> Inl e
                   | Inr s \<Rightarrow> Inr (self\<lparr>station := Some (str_int station_num @ ''+'' @ s)\<rparr>))))"

text \<open>The generated constructor stores the arguments and runs \<open>__post_init__\<close>.\<close>

definition init :: "pynum \<Rightarrow> pynum \<Rightarrow> pynum \<Rightarrow> string option \<Rightarrow> py_error + EarthworkCrossSection" where
  "init p c f s = post_init \<lparr>position = p, cut = c, fill = f, station = s\<rparr>"


definition find_distance_to :: "EarthworkCrossSection \<Rightarrow> EarthworkCrossSection \<Rightarrow> pynum" where
  "find_distance_to self other = py_abs (py_sub (position other) (position self))"

definition find_cutfill :: "pynum \<Rightarrow> pynum \<Rightarrow> pynum \<Rightarrow> py_error + pynum" where
  "find_cutfill distance cross_section_1 cross_section_2 =
     py_truediv (py_mul distance (py_add cross_section_1 cross_section_2))
       (py_mul (PInt 2) (PInt 27))"

definition find_cut_to ::
  "EarthworkCrossSection \<Rightarrow> EarthworkCrossSection \<Rightarrow> pynum \<Rightarrow> py_error + pynum" where
  "find_cut_to self other swell =
     (case find_cutfill (find_distance_to self other) (cut self) (cut other) of
        Inl e \<Rightarrow> Inl e
      | Inr v \<Rightarrow> Inr (py_mul v (py_add (PInt 1) swell)))"

definition find_fill_to ::
  "EarthworkCrossSection \<Rightarrow> EarthworkCrossSection \<Rightarrow> pynum \<Rightarrow> py_error + pynum" where
  "find_fill_to self other shrink =
     (case find_cutfill (find_distance_to self other) (fill self) (fill other) of
        Inl e \<Rightarrow> Inl e
      | Inr v \<Rightarrow> Inr (py_mul v (py_add (PInt 1) shrink)))"

definition find_earthwork_to ::
  "EarthworkCrossSection \<Rightarrow> EarthworkCrossSection \<Rightarrow> pynum \<Rightarrow> pynum \<Rightarrow> py_error + pynum" where
  "find_earthwork_to self other shrink swell =
     (case find_cut_to self other swell of
        Inl e \<Rightarrow> Inl e
      | Inr c \<Rightarrow>
          (case find_fill_to self other shrink of
             Inl e \<Rightarrow> Inl e
           | Inr f \<Rightarrow> Inr (py_sub c f)))"

section \<open>The demonstration in \<open>main\<close>\<close>

text \<open>
  \<open>main\<close> builds three cross-sections without a station and adds the earthwork between
  the first and the second to the earthwork between the second and the third, with
  \<open>swell=.3\<close> and \<open>shrink=.1\<close>.
\<close>

definition cross_section_1 :: EarthworkCrossSection where
  "cross_section_1 = projr (init (PInt 1100) (PInt 350) (PInt 0) None)"

definition cross_section_2 :: EarthworkCrossSection where
  "cross_section_2 = projr (init (PInt 1200) (PInt 150) (PInt 0) None)"

definition cross_section_3 :: EarthworkCrossSection where
  "cross_section_3 = projr (init (PInt 1300) (PInt 0) (PInt 75) None)"

definition earthwork_1_to_2 :: "py_error + pynum" where
  "earthwork_1_to_2 =
     find_earthwork_to cross_section_1 cross_section_2 (float_lit (1 / 10)) (float_lit (3 / 10))"

definition earthwork_2_to_3 :: "py_error + pynum" where
  "earthwork_2_to_3 =
     find_earthwork_to cross_section_2 cross_section_3 (float_lit (1 / 10)) (float_lit (3 / 10))"

definition total_earthwork_volume :: "py_error + pynum" where
  "total_earthwork_volume =
     (case earthwork_1_to_2 of
        Inl e \<Rightarrow> Inl e
      | Inr x \<Rightarrow> (case earthwork_2_to_3 of Inl e \<Rightarrow> Inl e | Inr y \<Rightarrow> Inr (py_add x y)))"

section \<open>Properties of the rounding\<close>

lemma bitlen_powi_bounds:
  assumes "0 < a"
  shows "(2::rat) powi (bitlen a - 1) \<le> of_int a" and "of_int a < (2::rat) powi bitlen a"
proof -
  have ge1: "1 \<le> bitlen a" using assms by (simp add: bitlen_alt_def)
  from bitlen_bounds [OF assms]
  have lo: "2 ^ nat (bitlen a - 1) \<le> a" and hi: "a < 2 ^ nat (bitlen a)" by simp_all
  have "(of_int (2 ^ nat (bitlen a - 1)) :: rat) \<le> of_int a"
    using lo by (simp only: of_int_le_iff)
  then show "(2::rat) powi (bitlen a - 1) \<le> of_int a"
    using ge1 by (simp add: power_int_def)
  have "(of_int a :: rat) < of_int (2 ^ nat (bitlen a))"
    using hi by (simp only: of_int_less_iff)
  then show "of_int a < (2::rat) powi bitlen a"
    using ge1 by (simp add: power_int_def)
qed

lemma ilog2_bounds:
  assumes "0 < x"
  shows "2 powi ilog2 x \<le> x" and "x < 2 powi (ilog2 x + 1)"
proof -
  obtain a b where q: "quotient_of x = (a, b)" by (cases "quotient_of x")
  have b: "0 < b" using q by (rule quotient_of_denom_pos)
  have x: "x = of_int a / of_int b" using q by (rule quotient_of_div)
  have a: "0 < a" using assms b unfolding x by (simp add: zero_less_divide_iff)
  note A = bitlen_powi_bounds [OF a] and B = bitlen_powi_bounds [OF b]
  define k where "k = bitlen a - bitlen b"
  have p2: "(0::rat) < 2 powi n" for n by (simp add: power_int_def)
  have lo: "2 powi (k - 1) \<le> x"
  proof -
    have "(2::rat) powi (k - 1) = 2 powi (bitlen a - 1) / 2 powi bitlen b"
      unfolding k_def by (simp add: power_int_diff)
    also have "\<dots> \<le> of_int a / of_int b"
      using A(1) B(2) a b p2 by (intro frac_le) (simp_all add: less_imp_le)
    finally show ?thesis unfolding x .
  qed
  have hi: "x < 2 powi (k + 1)"
  proof -
    have "of_int a / of_int b < (2::rat) powi bitlen a / 2 powi (bitlen b - 1)"
      using A(2) B(1) a p2 by (intro frac_less) (simp_all add: less_imp_le)
    also have "\<dots> = 2 powi (k + 1)"
      unfolding k_def by (simp add: power_int_diff power_int_add)
    finally show ?thesis unfolding x .
  qed
  have il: "ilog2 x = (if 2 powi k \<le> x then k else k - 1)"
    by (simp add: ilog2_def q k_def Let_def)
  show "2 powi ilog2 x \<le> x" using lo by (simp add: il)
  show "x < 2 powi (ilog2 x + 1)" using hi by (simp add: il not_le)
qed

lemma ilog2_less:
  assumes "0 < x" "x < 2 powi n"
  shows "ilog2 x < n"
proof (rule ccontr)
  assume "\<not> ilog2 x < n"
  then have "(2::rat) powi n \<le> 2 powi ilog2 x"
    by (intro power_int_increasing) simp_all
  with ilog2_bounds(1) [OF assms(1)] assms(2) show False by simp
qed

lemma round_half_even_floor_le: "\<lfloor>x\<rfloor> \<le> round_half_even x"
  by (simp add: round_half_even_def Let_def)

lemma round_half_even_lower: "x - 1 / 2 \<le> of_int (round_half_even x)"
  unfolding round_half_even_def Let_def
  by (auto simp: not_less) linarith+

lemma round_half_even_upper: "of_int (round_half_even x) \<le> x + 1 / 2"
  unfolding round_half_even_def Let_def
  by (auto simp: not_less) linarith+

lemma round_half_even_minus: "round_half_even (- x) = - round_half_even x"
proof (cases "x = of_int \<lfloor>x\<rfloor>")
  case True
  then obtain n where "x = of_int n" by metis
  then show ?thesis by (simp add: round_half_even_def Let_def flip: of_int_minus)
next
  case False
  then have fl: "\<lfloor>- x\<rfloor> = - \<lfloor>x\<rfloor> - 1"
    by linarith
  have d: "0 < x - of_int \<lfloor>x\<rfloor>" using False by (simp add: less_le)
  show ?thesis
    unfolding round_half_even_def Let_def fl using d
    by (auto simp: not_less)
qed

lemma two_powi_pos: "(0::rat) < 2 powi n"
  by (simp add: power_int_def)

lemma fl_0: "fl 0 = 0"
  by (simp add: fl_def)

lemma fl_minus: "fl (- x) = - fl x"
  by (simp add: fl_def Let_def round_half_even_minus)

lemma fl_nonneg:
  assumes "0 \<le> x"
  shows "0 \<le> fl x"
proof (cases "x = 0")
  case True
  then show ?thesis by (simp add: fl_0)
next
  case False
  define e where "e = ilog2 \<bar>x\<bar> - 52"
  have "0 \<le> x / 2 powi e" using assms two_powi_pos [of e] by simp
  then have "0 \<le> \<lfloor>x / 2 powi e\<rfloor>" by simp
  then have "0 \<le> round_half_even (x / 2 powi e)"
    using round_half_even_floor_le [of "x / 2 powi e"] by linarith
  then show ?thesis
    using False two_powi_pos [of e] by (simp add: fl_def Let_def e_def)
qed

lemma fl_pos:
  assumes "0 < x"
  shows "0 < fl x"
proof -
  define e where "e = ilog2 \<bar>x\<bar> - 52"
  have "(2::rat) powi e \<le> 2 powi ilog2 x"
    unfolding e_def using assms by (intro power_int_increasing) simp_all
  also have "\<dots> \<le> x" using assms by (rule ilog2_bounds(1))
  finally have "1 \<le> x / 2 powi e" using two_powi_pos [of e] by (simp add: le_divide_eq)
  then have "1 \<le> \<lfloor>x / 2 powi e\<rfloor>" by simp
  then have "0 < round_half_even (x / 2 powi e)"
    using round_half_even_floor_le [of "x / 2 powi e"] by linarith
  then show ?thesis
    using assms two_powi_pos [of e] by (simp add: fl_def Let_def e_def)
qed

lemma fl_pos_iff: "0 < fl x \<longleftrightarrow> 0 < x"
proof
  assume "0 < x" then show "0 < fl x" by (rule fl_pos)
next
  assume p: "0 < fl x"
  show "0 < x"
  proof (rule ccontr)
    assume "\<not> 0 < x"
    then have "0 \<le> - x" by simp
    then have "0 \<le> fl (- x)" by (rule fl_nonneg)
    with p show False by (simp add: fl_minus)
  qed
qed

lemma fl_neg_iff: "fl x < 0 \<longleftrightarrow> x < 0"
  using fl_pos_iff [of "- x"] by (simp add: fl_minus)

lemma fl_nonneg_iff: "0 \<le> fl x \<longleftrightarrow> 0 \<le> x"
  using fl_neg_iff [of x] by (simp add: not_less [symmetric])

lemma fl_eq_0_iff: "fl x = 0 \<longleftrightarrow> x = 0"
  using fl_pos_iff [of x] fl_neg_iff [of x] by (cases "x = 0") (auto simp: fl_0)

lemma fl_eq:
  "x \<noteq> 0 \<Longrightarrow> fl x = of_int (round_half_even (x / 2 powi (ilog2 \<bar>x\<bar> - 52))) * 2 powi (ilog2 \<bar>x\<bar> - 52)"
  by (simp add: fl_def Let_def)

text \<open>The rounding error is at most half a unit in the last place.\<close>

lemma fl_error:
  assumes "x \<noteq> 0"
  shows "\<bar>fl x - x\<bar> \<le> 2 powi (ilog2 \<bar>x\<bar> - 53)"
proof -
  define e where "e = ilog2 \<bar>x\<bar> - 52"
  define s :: rat where "s = 2 powi e"
  define r where "r = round_half_even (x / s)"
  have s: "0 < s" unfolding s_def by (rule two_powi_pos)
  have f: "fl x = of_int r * s"
    using assms by (simp add: fl_eq r_def s_def e_def)
  have "\<bar>of_int r - x / s\<bar> \<le> 1 / 2"
    using round_half_even_lower [of "x / s"] round_half_even_upper [of "x / s"]
    unfolding r_def by linarith
  then have "\<bar>of_int r - x / s\<bar> * s \<le> 1 / 2 * s"
    using s by (intro mult_right_mono) simp_all
  moreover have "\<bar>of_int r - x / s\<bar> * s = \<bar>fl x - x\<bar>"
  proof -
    have "fl x - x = (of_int r - x / s) * s"
      using s by (simp add: f left_diff_distrib)
    then have "\<bar>fl x - x\<bar> = \<bar>of_int r - x / s\<bar> * \<bar>s\<bar>"
      by (simp only: abs_mult)
    then show ?thesis using s by simp
  qed
  moreover have "1 / 2 * s = 2 powi (ilog2 \<bar>x\<bar> - 53)"
    unfolding s_def e_def by (simp add: power_int_diff)
  ultimately show ?thesis by simp
qed

text \<open>Rounding does not cross an integer that is itself a binary64 number.\<close>

lemma fl_ge_of_int:
  assumes "of_int k \<le> x" and "x \<noteq> 0" and "ilog2 \<bar>x\<bar> \<le> 52"
  shows "of_int k \<le> fl x"
proof -
  define e where "e = ilog2 \<bar>x\<bar> - 52"
  define s :: rat where "s = 2 powi e"
  define r where "r = round_half_even (x / s)"
  have s: "0 < s" unfolding s_def by (rule two_powi_pos)
  have f: "fl x = of_int r * s"
    using assms by (simp add: fl_eq r_def s_def e_def)
  have e: "e \<le> 0" using assms(3) by (simp add: e_def)
  have s': "s = 1 / 2 ^ nat (- e)"
    using e by (simp add: s_def power_int_def power_one_over inverse_eq_divide)
  define K where "K = k * 2 ^ nat (- e)"
  have K: "of_int K = of_int k / s" by (simp add: K_def s')
  have "of_int k / s \<le> x / s" using assms(1) s by (simp add: divide_right_mono)
  then have "K \<le> \<lfloor>x / s\<rfloor>" by (simp add: le_floor_iff K)
  then have "K \<le> r" using round_half_even_floor_le [of "x / s"] unfolding r_def by linarith
  then have "(of_int K :: rat) \<le> of_int r" by simp
  then have "of_int K * s \<le> of_int r * s" using s by (intro mult_right_mono) simp_all
  then show ?thesis using s by (simp add: f K)
qed

lemma floor_fl_div_100:
  assumes "\<bar>p\<bar> < 100 * 2 ^ 47"
  shows "\<lfloor>fl (of_int p / 100)\<rfloor> = p div 100"
proof (cases "p = 0")
  case True
  then show ?thesis by (simp add: fl_0)
next
  case False
  define x :: rat where "x = of_int p / 100"
  define k where "k = p div 100"
  have x0: "x \<noteq> 0" using False by (simp add: x_def)
  have kx: "of_int k \<le> x"
  proof -
    have "k * 100 \<le> p" unfolding k_def by simp
    then have "(of_int (k * 100) :: rat) \<le> of_int p" by (simp only: of_int_le_iff)
    then show ?thesis by (simp add: x_def le_divide_eq)
  qed
  have xk: "x \<le> of_int k + 99 / 100"
  proof -
    have "p = k * 100 + p mod 100" unfolding k_def by simp
    moreover have "p mod 100 < 100" by simp
    ultimately have "p \<le> k * 100 + 99" by linarith
    then have "(of_int p :: rat) \<le> of_int (k * 100 + 99)" by (simp only: of_int_le_iff)
    then show ?thesis by (simp add: x_def divide_le_eq)
  qed
  have ax: "\<bar>x\<bar> < 2 powi 47"
  proof -
    have "(of_int \<bar>p\<bar> :: rat) < of_int (100 * 2 ^ 47)" using assms by (simp only: of_int_less_iff)
    then have "\<bar>of_int p :: rat\<bar> < 100 * 2 ^ 47" by simp
    then have "\<bar>of_int p :: rat\<bar> / 100 < 2 ^ 47" by (simp only: divide_less_eq) simp
    then show ?thesis by (simp add: x_def)
  qed
  have il: "ilog2 \<bar>x\<bar> < 47" using x0 ax by (intro ilog2_less) simp_all
  have "(2::rat) powi (ilog2 \<bar>x\<bar> - 53) \<le> 2 powi (- 7)"
    using il by (intro power_int_increasing) simp_all
  also have "\<dots> = 1 / 128" by (simp add: power_int_minus inverse_eq_divide)
  finally have "\<bar>fl x - x\<bar> \<le> 1 / 128" using fl_error [OF x0] by simp
  then have up: "fl x < of_int k + 1" using xk by linarith
  have lo: "of_int k \<le> fl x" using kx x0 il by (intro fl_ge_of_int) simp_all
  show ?thesis
    using lo up unfolding x_def [symmetric] k_def [symmetric] by (intro floor_unique) simp_all
qed

section \<open>Distances and volumes\<close>

lemma fl_of_100: "fl 100 = 100" by code_simp












section \<open>Station labels\<close>

lemma digit_char_0: "digit_char 0 = CHR ''0''"
  by code_simp

lemma str_digits_small: "n < 10 \<Longrightarrow> str_digits n = [digit_char n]"
  by (simp add: str_digits.simps)

lemma str_digits_two: "10 \<le> n \<Longrightarrow> n < 100 \<Longrightarrow> str_digits n = [digit_char (n div 10), digit_char (n mod 10)]"
  by (subst str_digits.simps) (simp add: str_digits_small)


lemma zero_pad_2_digits:
  assumes "0 \<le> m" "m < 100"
  shows "zero_pad 2 False (str_digits m) = [digit_char (m div 10), digit_char (m mod 10)]"
proof (cases "m < 10")
  case True
  then show ?thesis using assms by (simp add: zero_pad_def str_digits_small digit_char_0)
next
  case False
  then show ?thesis using assms by (simp add: zero_pad_def str_digits_two)
qed


lemma init_None_PInt:
  "init (PInt n) c f None =
     Inr \<lparr>position = PInt n, cut = c, fill = f,
          station = Some (str_int \<lfloor>fl (of_int n / 100)\<rfloor> @ ''+'' @
            zero_pad 2 (n - \<lfloor>fl (of_int n / 100)\<rfloor> * 100 < 0)
              (str_digits \<bar>n - \<lfloor>fl (of_int n / 100)\<rfloor> * 100\<bar>))\<rparr>"
  by (simp add: init_def post_init_def Let_def)

lemma init_None_PFloat: "init (PFloat r) c f None = Inl ValueError"
  by (simp add: init_def post_init_def Let_def fl_of_100)


lemma floor_rat_div_100: "\<lfloor>(of_int p :: rat) / 100\<rfloor> = p div 100"
  using floor_divide_of_int_eq [of p 100, where ?'a = rat] by simp

lemma init_None_in_range:
  assumes "\<bar>p\<bar> < 100 * 2 ^ 47"
  shows "init (PInt p) c f None =
     Inr \<lparr>position = PInt p, cut = c, fill = f,
          station = Some (str_int (p div 100) @ ''+'' @
                          [digit_char (p mod 100 div 10), digit_char (p mod 100 mod 10)])\<rparr>"
proof -
  have m: "p - p div 100 * 100 = p mod 100"
    by (simp add: minus_div_mult_eq_mod)
  have r: "0 \<le> p mod 100" "p mod 100 < 100" by simp_all
  have nl: "(p mod 100 < 0) = False" by simp
  show ?thesis
    by (simp only: init_None_PInt floor_fl_div_100 [OF assms] m nl abs_of_nonneg [OF r(1)]
          zero_pad_2_digits [OF r])
qed

text \<open>
  Claim C10, amended. For every \<open>int\<close> position \<open>p\<close> with \<open>\<bar>p\<bar> < 100 * 2\<^sup>4\<^sup>7\<close>, also a negative
  one, the construction without a station succeeds, and the station is \<open>\<lfloor>p / 100\<rfloor>\<close>, a
  plus sign and the two digits of \<open>p - 100 * \<lfloor>p / 100\<rfloor>\<close>, which lies between 0 and 99.
  In this range the quotient \<open>p / 100\<close> is rounded by less than \<open>1 / 100\<close> and never
  across an integer, so \<open>floor\<close> of the rounded quotient is the floor of the exact one.
\<close>

theorem station_of_int_position:
  assumes "\<bar>p\<bar> < 100 * 2 ^ 47"
  shows "init (PInt p) c f None =
     Inr \<lparr>position = PInt p, cut = c, fill = f,
          station = Some (str_int \<lfloor>(of_int p :: rat) / 100\<rfloor> @ ''+'' @
            [digit_char ((p - 100 * \<lfloor>(of_int p :: rat) / 100\<rfloor>) div 10),
             digit_char ((p - 100 * \<lfloor>(of_int p :: rat) / 100\<rfloor>) mod 10)])\<rparr> \<and>
     0 \<le> p - 100 * \<lfloor>(of_int p :: rat) / 100\<rfloor> \<and>
     p - 100 * \<lfloor>(of_int p :: rat) / 100\<rfloor> \<le> 99"
proof -
  have m: "p - 100 * (p div 100) = p mod 100"
    by (simp add: minus_mult_div_eq_mod)
  have "0 \<le> p mod 100" "p mod 100 < 100" by simp_all
  then show ?thesis
    by (simp add: floor_rat_div_100 m init_None_in_range [OF assms])
qed

text \<open>
  The position \<open>-50\<close> is in the range, and its station is \<open>-1+50\<close>.
\<close>

theorem station_of_int_position_witness:
  "\<bar>- 50 :: int\<bar> < 100 * 2 ^ 47 \<and>
   init (PInt (- 50)) (PInt 0) (PInt 0) None =
     Inr \<lparr>position = PInt (- 50), cut = PInt 0, fill = PInt 0, station = Some ''-1+50''\<rparr>"
proof -
  have h: "\<bar>- 50 :: int\<bar> < 100 * 2 ^ 47" by simp
  have l: "str_int \<lfloor>(of_int (- 50) :: rat) / 100\<rfloor> @ ''+'' @
            [digit_char ((- 50 - 100 * \<lfloor>(of_int (- 50) :: rat) / 100\<rfloor>) div 10),
             digit_char ((- 50 - 100 * \<lfloor>(of_int (- 50) :: rat) / 100\<rfloor>) mod 10)] = ''-1+50''"
    by code_simp
  show ?thesis
    using h station_of_int_position [OF h, of "PInt 0" "PInt 0"] unfolding l by simp
qed

text \<open>
  Claim C10 as stated, for every \<open>int\<close> position, fails at \<open>p = 999999999999999999\<close>.
  The exact quotient \<open>9999999999999999.99\<close> lies between the neighbouring binary64
  numbers \<open>9999999999999998\<close> and \<open>10000000000000000\<close> and is rounded to the second, so
  \<open>station_num\<close> is \<open>10000000000000000\<close> instead of \<open>9999999999999999\<close>, \<open>station_addon\<close>
  is \<open>-1\<close> instead of \<open>99\<close>, and the station is \<open>10000000000000000+-1\<close>.
\<close>

theorem station_of_huge_position_counterexample:
  "init (PInt 999999999999999999) (PInt 0) (PInt 0) None =
     Inr \<lparr>position = PInt 999999999999999999, cut = PInt 0, fill = PInt 0,
          station = Some ''10000000000000000+-1''\<rparr> \<and>
   str_int \<lfloor>(999999999999999999 :: rat) / 100\<rfloor> = ''9999999999999999'' \<and>
   999999999999999999 - 100 * \<lfloor>(999999999999999999 :: rat) / 100\<rfloor> = 99"
  by code_simp

text \<open>
  Claim C1. The construction does raise: with the \<open>float\<close> position \<open>1250.5\<close> and no
  station, \<open>station_addon\<close> is a \<open>float\<close> and the format code \<open>d\<close> of the f-string
  raises a \<open>ValueError\<close>. By \<open>init_None_PFloat\<close> the same happens for every \<open>float\<close>
  position, fractional or not, although the class documents \<open>position\<close> as a \<open>float\<close>.
\<close>

theorem float_position_raises:
  "init (PFloat (2501 / 2)) (PInt 350) (PInt 0) None = Inl ValueError"
  by (rule init_None_PFloat)

lemma cross_section_1_eq:
  "cross_section_1 = \<lparr>position = PInt 1100, cut = PInt 350, fill = PInt 0, station = Some ''11+00''\<rparr>"
  unfolding cross_section_1_def by code_simp











section \<open>Signs and values of the volumes\<close>

lemma to_float_nonneg: "0 \<le> num_val a \<Longrightarrow> 0 \<le> to_float a"
  by (cases a) (simp_all add: fl_nonneg)





lemma cross_section_2_eq:
  "cross_section_2 = \<lparr>position = PInt 1200, cut = PInt 150, fill = PInt 0, station = Some ''12+00''\<rparr>"
  unfolding cross_section_2_def by code_simp

lemma cross_section_3_eq:
  "cross_section_3 = \<lparr>position = PInt 1300, cut = PInt 0, fill = PInt 75, station = Some ''13+00''\<rparr>"
  unfolding cross_section_3_def by code_simp

lemma earthwork_1_to_2_eq:
  "earthwork_1_to_2 = Inr (PFloat (2646972437238519 / 2199023255552))"
  unfolding earthwork_1_to_2_def cross_section_1_eq cross_section_2_eq by code_simp

lemma earthwork_2_to_3_eq:
  "earthwork_2_to_3 = Inr (PFloat (7330077518506667 / 35184372088832))"
  unfolding earthwork_2_to_3_def cross_section_2_eq cross_section_3_eq by code_simp

lemma total_earthwork_volume_eq:
  "total_earthwork_volume = Inr (PFloat (6210204564290371 / 4398046511104))"
proof -
  have "py_add (PFloat (2646972437238519 / 2199023255552))
          (PFloat (7330077518506667 / 35184372088832)) =
        PFloat (6210204564290371 / 4398046511104)"
    by code_simp
  then show ?thesis
    by (simp add: total_earthwork_volume_def earthwork_1_to_2_eq earthwork_2_to_3_eq)
qed



text \<open>
  Claim C3, amended. With \<open>shrink=0.1\<close> and \<open>swell=0.3\<close> the earthwork from the first to the
  second cross-section of the demonstration is 1203.7037 to four decimals, and the total
  of the demonstration is 1412.0 to one decimal. Both values are the binary64 numbers
  that the code computes.
\<close>

theorem demonstration_earthwork:
  "earthwork_1_to_2 = Inr (PFloat (2646972437238519 / 2199023255552)) \<and>
   \<bar>2646972437238519 / 2199023255552 - 12037037 / 10000\<bar> \<le> (5 / 100000 :: rat) \<and>
   total_earthwork_volume = Inr (PFloat (6210204564290371 / 4398046511104)) \<and>
   \<bar>6210204564290371 / 4398046511104 - 1412\<bar> \<le> (5 / 100 :: rat)"
  by (simp add: earthwork_1_to_2_eq total_earthwork_volume_eq)

text \<open>
  Claim C3 as stated fails: the earthwork from the first to the second cross-section is
  more than 0.9 away from 1204.6296.
\<close>

theorem demonstration_earthwork_counterexample:
  "earthwork_1_to_2 = Inr (PFloat (2646972437238519 / 2199023255552)) \<and>
   (9 / 10 :: rat) < \<bar>2646972437238519 / 2199023255552 - 12046296 / 10000\<bar>"
  by (simp add: earthwork_1_to_2_eq)

end
